theory Spec2Isabelle
  imports Main "HOL-Library.Word"
begin

unbundle bit_operations_syntax

section \<open>Machine model\<close>

text \<open>
  The allocator of \<^verbatim>\<open>system/lib/minimalloc.cpp\<close> assumes a 32-bit system: \<^verbatim>\<open>size_t\<close>
  and every pointer are 32-bit words, and pointer arithmetic wraps. Memory is one flat
  array of bytes; a \<^verbatim>\<open>Region\<close> header is four little-endian words at offsets 0, 4, 8
  and 12 of the region's address, and the \<^verbatim>\<open>FreeInfo\<close> of the union starts at
  offset 16, over the first payload bytes.
\<close>

type_synonym u32 = "32 word"
type_synonym u8 = "8 word"

text \<open>
  What stops an execution: a failed \<^verbatim>\<open>assert\<close>, and indexing \<^verbatim>\<open>freeLists\<close>
  outside its 32 entries, where what is read or written is whatever object lies next to
  the table. Every function that can stop returns a \<open>fault\<close> or its result.

  The other operation of the file that C++ leaves undefined for some arguments, the shift
  of a 32-bit value by 32 or more, does not stop an execution: the targets this library
  is compiled for (asm.js and WebAssembly, like x86) take the count of a 32-bit shift
  modulo 32, so the compiled \<^verbatim>\<open>1 << index\<close> is 1 shifted by \<^verbatim>\<open>index % 32\<close>, and
  the code goes on with that value. The model does the same.
\<close>

datatype fault = AssertionFailed | OutOfBounds

definition bindR :: "fault + 'a \<Rightarrow> ('a \<Rightarrow> fault + 'b) \<Rightarrow> fault + 'b" where
  "bindR m f = (case m of Inl e \<Rightarrow> Inl e | Inr x \<Rightarrow> f x)"

text \<open>
  \<^verbatim>\<open>assert(b)\<close>. The flag \<open>chk\<close> says whether assertions are compiled in
  (\<open>True\<close>) or compiled out by \<^verbatim>\<open>NDEBUG\<close> (\<open>False\<close>); every function that
  asserts takes it as its first argument.
\<close>

definition assert_c :: "bool \<Rightarrow> bool \<Rightarrow> fault + unit" where
  "assert_c chk b = (if chk \<and> \<not> b then Inl AssertionFailed else Inr ())"

subsection \<open>Math utilities\<close>

text \<open>
  Lines 17 to 35. \<^verbatim>\<open>__builtin_popcount\<close> counts the set bits and \<^verbatim>\<open>__builtin_clz\<close> the
  leading zero bits of a 32-bit value (the source calls the latter on values other than 0
  only). \<^verbatim>\<open>upperBoundByPowerOf2\<close> shifts by \<^verbatim>\<open>32 - clz\<close>, which is 32 for a value
  with its top bit set (the count is taken modulo 32); the file defines it and never
  calls it.
\<close>

definition builtin_popcount :: "u32 \<Rightarrow> nat" where
  "builtin_popcount x = length (filter (bit x) [0..<32])"

primrec clz_below :: "nat \<Rightarrow> u32 \<Rightarrow> nat" where
  "clz_below 0 x = 0"
| "clz_below (Suc n) x = (if bit x n then 0 else Suc (clz_below n x))"

definition builtin_clz :: "u32 \<Rightarrow> nat" where
  "builtin_clz x = clz_below 32 x"

definition isPowerOf2 :: "u32 \<Rightarrow> bool" where
  "isPowerOf2 x = (builtin_popcount x = 1)"

definition upperBoundByPowerOf2 :: "u32 \<Rightarrow> u32" where
  "upperBoundByPowerOf2 x =
     (if x = 0 then 1
      else if isPowerOf2 x then x
      else push_bit ((32 - builtin_clz x) mod 32) 1)"

definition lowerBoundByPowerOf2 :: "u32 \<Rightarrow> u32" where
  "lowerBoundByPowerOf2 x =
     (if x = 0 then 1
      else if isPowerOf2 x then x
      else push_bit (31 - builtin_clz x) 1)"

subsection \<open>Constants\<close>

text \<open>Lines 40 to 58, and lines 152, 153 and 261 for the free-list constants.\<close>

definition ALIGNMENT :: u32 where "ALIGNMENT = 16"
definition MIN_ALLOC :: u32 where "MIN_ALLOC = ALIGNMENT"
definition METADATA_SIZE :: u32 where "METADATA_SIZE = MIN_ALLOC"
definition MIN_REGION_SIZE :: u32 where "MIN_REGION_SIZE = METADATA_SIZE + MIN_ALLOC"
definition MIN_FREELIST_INDEX :: u32 where "MIN_FREELIST_INDEX = 4"
definition MAX_FREELIST_INDEX :: u32 where "MAX_FREELIST_INDEX = 32"
definition SPECULATIVE_FREELIST_TRIES :: nat where "SPECULATIVE_FREELIST_TRIES = 3"

definition alignUp :: "u32 \<Rightarrow> u32" where
  "alignUp ptr = (ptr + ALIGNMENT - 1) AND (- ALIGNMENT)"

subsection \<open>Memory and the allocator's globals\<close>

text \<open>A 32-bit field is read and written as four bytes, lowest first.\<close>

definition load32 :: "(u32 \<Rightarrow> u8) \<Rightarrow> u32 \<Rightarrow> u32" where
  "load32 m a =
     ucast (m a) OR push_bit 8 (ucast (m (a + 1))) OR
     push_bit 16 (ucast (m (a + 2))) OR push_bit 24 (ucast (m (a + 3)))"

definition store32 :: "(u32 \<Rightarrow> u8) \<Rightarrow> u32 \<Rightarrow> u32 \<Rightarrow> (u32 \<Rightarrow> u8)" where
  "store32 m a v =
     m(a := ucast v, a + 1 := ucast (drop_bit 8 v),
       a + 2 := ucast (drop_bit 16 v), a + 3 := ucast (drop_bit 24 v))"

text \<open>
  The state: the bytes of memory, the table \<^verbatim>\<open>freeLists\<close> (a C array of
  \<^verbatim>\<open>MAX_FREELIST_INDEX\<close> heads, read and written only through the bounds-checked
  accessors below), \<^verbatim>\<open>lastRegion\<close>, and the program break with its limit, which is
  all there is to the heap-growth primitive.
\<close>

record alloc_state =
  mem :: "u32 \<Rightarrow> u8"
  freeLists :: "nat \<Rightarrow> u32"
  lastRegion :: u32
  brk :: u32
  brkLimit :: u32

text \<open>
  Modelled from the spec: the heap-growth primitive \<^verbatim>\<open>sbrk\<close> is the C library's, not
  this repository's. The spec calls it monotonic: it is asked for N more bytes and
  answers with an address (the old break) or the failure signal \<^verbatim>\<open>(void*)-1\<close>, which
  here is the answer exactly when the limit would be passed.
\<close>

definition sbrk :: "alloc_state \<Rightarrow> u32 \<Rightarrow> u32 \<times> alloc_state" where
  "sbrk s incr =
     (if unat (brk s) + unat incr \<le> unat (brkLimit s)
      then (brk s, s\<lparr>brk := brk s + incr\<rparr>)
      else (- 1, s))"

definition readFreeLists :: "alloc_state \<Rightarrow> u32 \<Rightarrow> fault + u32" where
  "readFreeLists s index =
     (if index < MAX_FREELIST_INDEX then Inr (freeLists s (unat index)) else Inl OutOfBounds)"

definition writeFreeLists :: "alloc_state \<Rightarrow> u32 \<Rightarrow> u32 \<Rightarrow> fault + alloc_state" where
  "writeFreeLists s index v =
     (if index < MAX_FREELIST_INDEX
      then Inr (s\<lparr>freeLists := (freeLists s)(unat index := v)\<rparr>)
      else Inl OutOfBounds)"

text \<open>The fields of \<^verbatim>\<open>struct Region\<close> and \<^verbatim>\<open>struct FreeInfo\<close>, by address.\<close>

definition totalSize :: "alloc_state \<Rightarrow> u32 \<Rightarrow> u32" where
  "totalSize s region = load32 (mem s) region"

definition usedPayload :: "alloc_state \<Rightarrow> u32 \<Rightarrow> u32" where
  "usedPayload s region = load32 (mem s) (region + 4)"

definition reg_prev :: "alloc_state \<Rightarrow> u32 \<Rightarrow> u32" where
  "reg_prev s region = load32 (mem s) (region + 8)"

definition reg_next :: "alloc_state \<Rightarrow> u32 \<Rightarrow> u32" where
  "reg_next s region = load32 (mem s) (region + 12)"

definition set_totalSize :: "alloc_state \<Rightarrow> u32 \<Rightarrow> u32 \<Rightarrow> alloc_state" where
  "set_totalSize s region v = s\<lparr>mem := store32 (mem s) region v\<rparr>"

definition set_usedPayload :: "alloc_state \<Rightarrow> u32 \<Rightarrow> u32 \<Rightarrow> alloc_state" where
  "set_usedPayload s region v = s\<lparr>mem := store32 (mem s) (region + 4) v\<rparr>"

definition set_reg_prev :: "alloc_state \<Rightarrow> u32 \<Rightarrow> u32 \<Rightarrow> alloc_state" where
  "set_reg_prev s region v = s\<lparr>mem := store32 (mem s) (region + 8) v\<rparr>"

definition set_reg_next :: "alloc_state \<Rightarrow> u32 \<Rightarrow> u32 \<Rightarrow> alloc_state" where
  "set_reg_next s region v = s\<lparr>mem := store32 (mem s) (region + 12) v\<rparr>"

definition fi_prev :: "alloc_state \<Rightarrow> u32 \<Rightarrow> u32" where
  "fi_prev s freeInfo = load32 (mem s) freeInfo"

definition fi_next :: "alloc_state \<Rightarrow> u32 \<Rightarrow> u32" where
  "fi_next s freeInfo = load32 (mem s) (freeInfo + 4)"

definition set_fi_prev :: "alloc_state \<Rightarrow> u32 \<Rightarrow> u32 \<Rightarrow> alloc_state" where
  "set_fi_prev s freeInfo v = s\<lparr>mem := store32 (mem s) freeInfo v\<rparr>"

definition set_fi_next :: "alloc_state \<Rightarrow> u32 \<Rightarrow> u32 \<Rightarrow> alloc_state" where
  "set_fi_next s freeInfo v = s\<lparr>mem := store32 (mem s) (freeInfo + 4) v\<rparr>"

section \<open>Region utilities\<close>

text \<open>Lines 107 to 139.\<close>

definition initRegion :: "alloc_state \<Rightarrow> u32 \<Rightarrow> u32 \<Rightarrow> u32 \<Rightarrow> alloc_state" where
  "initRegion s region tsize upayload =
     set_reg_next
       (set_reg_prev (set_usedPayload (set_totalSize s region tsize) region upayload) region 0)
       region 0"

definition getPayload :: "bool \<Rightarrow> alloc_state \<Rightarrow> u32 \<Rightarrow> fault + u32" where
  "getPayload chk s region =
     bindR (assert_c chk ((region + 16) - region = METADATA_SIZE)) (\<lambda>_.
     bindR (assert_c chk (usedPayload s region \<noteq> 0)) (\<lambda>_.
     Inr (region + 16)))"

definition fromPayload :: "u32 \<Rightarrow> u32" where
  "fromPayload payload = payload - METADATA_SIZE"

definition fromFreeInfo :: "u32 \<Rightarrow> u32" where
  "fromFreeInfo freeInfo = freeInfo - METADATA_SIZE"

definition getMaximumPayloadSize :: "alloc_state \<Rightarrow> u32 \<Rightarrow> u32" where
  "getMaximumPayloadSize s region = totalSize s region - METADATA_SIZE"

definition getFreeInfo :: "bool \<Rightarrow> alloc_state \<Rightarrow> u32 \<Rightarrow> fault + u32" where
  "getFreeInfo chk s region =
     bindR (assert_c chk (usedPayload s region = 0)) (\<lambda>_. Inr (region + 16))"

definition getAfter :: "alloc_state \<Rightarrow> u32 \<Rightarrow> u32" where
  "getAfter s region = region + totalSize s region"

section \<open>Global utilities\<close>

text \<open>
  Lines 168 to 242: the size class of a capacity, the smallest size of a class, removal
  from and insertion into a free list, the split, and marking a region used.
\<close>

definition getFreeListIndex :: "bool \<Rightarrow> u32 \<Rightarrow> fault + u32" where
  "getFreeListIndex chk sz =
     bindR (assert_c chk (push_bit (unat MIN_FREELIST_INDEX) 1 = MIN_ALLOC)) (\<lambda>_.
     bindR (assert_c chk (0 < sz)) (\<lambda>_.
     let sz1 = (if sz < MIN_ALLOC then MIN_ALLOC else sz);
         ret = lowerBoundByPowerOf2 sz1
     in bindR (assert_c chk (MIN_FREELIST_INDEX \<le> ret \<and> ret < MAX_FREELIST_INDEX)) (\<lambda>_.
        Inr ret)))"

definition getMinSizeForFreeListIndex :: "u32 \<Rightarrow> u32" where
  "getMinSizeForFreeListIndex index = push_bit (unat index mod 32) 1"

definition removeFromFreeList :: "bool \<Rightarrow> alloc_state \<Rightarrow> u32 \<Rightarrow> fault + alloc_state" where
  "removeFromFreeList chk s region =
     bindR (assert_c chk (usedPayload s region \<noteq> 0)) (\<lambda>_.
     bindR (getFreeListIndex chk (getMaximumPayloadSize s region)) (\<lambda>index.
     bindR (getFreeInfo chk s region) (\<lambda>freeInfo.
     bindR (readFreeLists s index) (\<lambda>head.
     bindR (if head = freeInfo then writeFreeLists s index (fi_next s freeInfo) else Inr s) (\<lambda>s1.
     let s2 = (if fi_prev s1 freeInfo \<noteq> 0
               then set_fi_next s1 (fi_prev s1 freeInfo) (fi_next s1 freeInfo) else s1);
         s3 = (if fi_next s2 freeInfo \<noteq> 0
               then set_fi_prev s2 (fi_next s2 freeInfo) (fi_prev s2 freeInfo) else s2)
     in Inr s3)))))"

definition addToFreeList :: "bool \<Rightarrow> alloc_state \<Rightarrow> u32 \<Rightarrow> fault + alloc_state" where
  "addToFreeList chk s region =
     bindR (assert_c chk (usedPayload s region \<noteq> 0)) (\<lambda>_.
     bindR (getFreeListIndex chk (getMaximumPayloadSize s region)) (\<lambda>index.
     bindR (getFreeInfo chk s region) (\<lambda>freeInfo.
     bindR (readFreeLists s index) (\<lambda>lastHead.
     bindR (writeFreeLists s index freeInfo) (\<lambda>s1.
     Inr (set_fi_next (set_fi_prev s1 freeInfo 0) freeInfo lastHead))))))"

definition possiblySplitRemainder :: "bool \<Rightarrow> alloc_state \<Rightarrow> u32 \<Rightarrow> u32 \<Rightarrow> fault + alloc_state" where
  "possiblySplitRemainder chk s region sz =
     (let payloadSize = getMaximumPayloadSize s region in
      bindR (assert_c chk (sz \<le> payloadSize)) (\<lambda>_.
      let extra = payloadSize - sz in
      if MIN_REGION_SIZE + ALIGNMENT \<le> extra then
        bindR (getPayload chk s region) (\<lambda>payload.
        let splitR = alignUp (payload + sz);
            totalSplitSize = splitR - region
        in bindR (assert_c chk (MIN_REGION_SIZE \<le> totalSplitSize)) (\<lambda>_.
           let s1 = initRegion s splitR totalSplitSize sz;
               s2 = set_reg_prev s1 splitR region;
               s3 = set_reg_next s2 splitR (reg_next s2 region);
               s4 = set_reg_next s3 region splitR
           in addToFreeList chk s4 splitR))
      else Inr s))"

definition useRegion :: "bool \<Rightarrow> alloc_state \<Rightarrow> u32 \<Rightarrow> u32 \<Rightarrow> fault + alloc_state" where
  "useRegion chk s region sz =
     bindR (assert_c chk (usedPayload s region = 0)) (\<lambda>_.
     possiblySplitRemainder chk (set_usedPayload s region sz) region sz)"

text \<open>
  \<^verbatim>\<open>useFreeInfo(FreeInfo* freeInfo)\<close> ends in \<^verbatim>\<open>useRegion(region, size)\<close>, but the
  function has no parameter \<^verbatim>\<open>size\<close> and the file declares no variable of that name.
  The embedding makes the value that identifier stands for an argument \<open>usz\<close> of
  \<open>useFreeInfo\<close> and of every function that reaches it. Nothing ties \<open>usz\<close> to the
  size the caller of \<^verbatim>\<open>malloc\<close> asked for: \<^verbatim>\<open>tryFromFreeList\<close> calls
  \<^verbatim>\<open>useFreeInfo(freeInfo)\<close> with the list entry alone.
\<close>

definition useFreeInfo :: "bool \<Rightarrow> u32 \<Rightarrow> alloc_state \<Rightarrow> u32 \<Rightarrow> fault + u32 \<times> alloc_state" where
  "useFreeInfo chk usz s freeInfo =
     (let region = fromFreeInfo freeInfo in
      bindR (removeFromFreeList chk s region) (\<lambda>s1.
      bindR (useRegion chk s1 region usz) (\<lambda>s2.
      Inr (region, s2))))"

text \<open>
  The first loop of \<^verbatim>\<open>tryFromFreeList\<close>: at most \<^verbatim>\<open>SPECULATIVE_FREELIST_TRIES\<close>
  entries of the list one class below. \<open>None\<close> is the loop running out without a
  \<^verbatim>\<open>return\<close>.
\<close>

function tryFromFreeList_speculative ::
  "bool \<Rightarrow> u32 \<Rightarrow> alloc_state \<Rightarrow> u32 \<Rightarrow> u32 \<Rightarrow> nat \<Rightarrow> (fault + u32 \<times> alloc_state) option" where
  "tryFromFreeList_speculative chk usz s sz freeInfo tries =
     (if freeInfo \<noteq> 0 \<and> tries < SPECULATIVE_FREELIST_TRIES then
        (if sz \<le> getMaximumPayloadSize s (fromFreeInfo freeInfo)
         then Some (useFreeInfo chk usz s freeInfo)
         else tryFromFreeList_speculative chk usz s sz (fi_next s freeInfo) (tries + 1))
      else None)"
  by pat_completeness auto
termination
  by (relation "measure (\<lambda>(chk, usz, s, sz, freeInfo, tries). SPECULATIVE_FREELIST_TRIES - tries)")
    auto

text \<open>The second loop: the first non-empty list from \<open>index\<close> upwards.\<close>

function tryFromFreeList_scan ::
  "bool \<Rightarrow> u32 \<Rightarrow> alloc_state \<Rightarrow> u32 \<Rightarrow> fault + u32 \<times> alloc_state" where
  "tryFromFreeList_scan chk usz s index =
     (if index < MAX_FREELIST_INDEX then
        (if freeLists s (unat index) \<noteq> 0
         then useFreeInfo chk usz s (freeLists s (unat index))
         else tryFromFreeList_scan chk usz s (index + 1))
      else Inr (0, s))"
  by pat_completeness auto
termination
proof (relation "measure (\<lambda>(chk, usz, s, index). 32 - unat index)")
  show "wf (measure (\<lambda>(chk, usz, s, index). 32 - unat index))"
    by simp
next
  fix chk :: bool and usz :: u32 and s :: alloc_state and index :: u32
  assume "index < MAX_FREELIST_INDEX"
  then have lt: "unat index < 32"
    by (simp add: MAX_FREELIST_INDEX_def word_less_nat_alt)
  then have "unat (index + 1) = unat index + 1"
    by (simp add: unat_word_ariths)
  with lt show "((chk, usz, s, index + 1), (chk, usz, s, index))
      \<in> measure (\<lambda>(chk, usz, s, index). 32 - unat index)"
    by simp
qed

text \<open>
  Lines 263 to 296: the search itself. The speculative loop runs only when the index is
  above \<^verbatim>\<open>MIN_FREELIST_INDEX\<close> and the size is below the smallest size of the class.
\<close>

definition tryFromFreeList :: "bool \<Rightarrow> u32 \<Rightarrow> alloc_state \<Rightarrow> u32 \<Rightarrow> fault + u32 \<times> alloc_state" where
  "tryFromFreeList chk usz s sz =
     bindR (getFreeListIndex chk sz) (\<lambda>index.
     bindR (if MIN_FREELIST_INDEX < index \<and> sz < getMinSizeForFreeListIndex index
            then bindR (readFreeLists s (index - 1)) (\<lambda>freeInfo.
                 Inr (tryFromFreeList_speculative chk usz s sz freeInfo 0))
            else Inr None) (\<lambda>found.
     case found of
       Some r \<Rightarrow> r
     | None \<Rightarrow> tryFromFreeList_scan chk usz s index))"

text \<open>
  Lines 298 to 340. First lines 325 to 339 of \<^verbatim>\<open>newAllocation\<close>, where the memory is
  there and \<open>fixedPtr\<close> becomes the new region; then the function from its start.
\<close>

definition newAllocation_region ::
  "bool \<Rightarrow> alloc_state \<Rightarrow> u32 \<Rightarrow> u32 \<Rightarrow> u32 \<Rightarrow> fault + u32 \<times> alloc_state" where
  "newAllocation_region chk s fixedPtr sbrkSize sz =
     (let region = fixedPtr;
          s1 = initRegion s region sbrkSize sz
      in bindR (useRegion chk s1 region sz) (\<lambda>s2.
         bindR (if lastRegion s2 \<noteq> 0 \<and> region = getAfter s2 (lastRegion s2)
                then bindR (assert_c chk (reg_next s2 (lastRegion s2) = 0)) (\<lambda>_.
                     let s3 = set_reg_next s2 (lastRegion s2) region
                     in Inr (set_reg_prev s3 region (lastRegion s3)))
                else Inr s2) (\<lambda>s4.
         Inr (region, s4\<lparr>lastRegion := region\<rparr>))))"

definition newAllocation :: "bool \<Rightarrow> alloc_state \<Rightarrow> u32 \<Rightarrow> fault + u32 \<times> alloc_state" where
  "newAllocation chk s sz =
     bindR (assert_c chk (0 < sz)) (\<lambda>_.
     let sbrkSize = METADATA_SIZE + alignUp sz;
         (ptr, s1) = sbrk s sbrkSize
     in if ptr = - 1 then Inr (0, s1)
        else
          let fixedPtr = alignUp ptr
          in if ptr \<noteq> fixedPtr then
               (let extra = fixedPtr - ptr;
                    (extraPtr, s2) = sbrk s1 extra
                in if extraPtr = - 1 then Inr (0, s2)
                   else bindR (assert_c chk (extraPtr = ptr + sbrkSize)) (\<lambda>_.
                        newAllocation_region chk s2 fixedPtr sbrkSize sz))
             else newAllocation_region chk s1 fixedPtr sbrkSize sz)"

text \<open>Lines 342 to 369. The source returns \<^verbatim>\<open>int\<close> 1 or 0; here it is a \<open>bool\<close>.\<close>

definition mergeIntoExistingFreeRegion ::
  "bool \<Rightarrow> alloc_state \<Rightarrow> u32 \<Rightarrow> fault + bool \<times> alloc_state" where
  "mergeIntoExistingFreeRegion chk s region =
     (let prv = reg_prev s region;
          nxt = reg_next s region
      in if prv \<noteq> 0 \<and> usedPayload s prv = 0 then
           bindR (removeFromFreeList chk s prv) (\<lambda>s1.
           let s2 = set_totalSize s1 prv (totalSize s1 prv + totalSize s1 region);
               s3 = set_reg_next s2 prv (reg_next s2 region)
           in bindR (if nxt \<noteq> 0 \<and> usedPayload s3 nxt = 0 then
                       bindR (removeFromFreeList chk s3 nxt) (\<lambda>s4.
                       let s5 = set_totalSize s4 prv (totalSize s4 prv + totalSize s4 nxt)
                       in Inr (set_reg_next s5 prv (reg_next s5 nxt)))
                     else Inr s3) (\<lambda>s6.
              bindR (addToFreeList chk s6 prv) (\<lambda>s7.
              Inr (True, s7))))
         else if nxt \<noteq> 0 \<and> usedPayload s nxt = 0 then
           bindR (removeFromFreeList chk s nxt) (\<lambda>s1.
           let s2 = set_totalSize s1 region (totalSize s1 region + totalSize s1 nxt);
               s3 = set_reg_next s2 region (reg_next s2 nxt)
           in bindR (addToFreeList chk s3 region) (\<lambda>s4.
              Inr (True, s4)))
         else Inr (False, s))"

section \<open>Public API\<close>

text \<open>
  Lines 375 to 451. \<^verbatim>\<open>memset\<close> and \<^verbatim>\<open>memcpy\<close> are the C library's, byte by byte
  from the lowest address.
\<close>

definition malloc :: "bool \<Rightarrow> u32 \<Rightarrow> alloc_state \<Rightarrow> u32 \<Rightarrow> fault + u32 \<times> alloc_state" where
  "malloc chk usz s sz =
     (if sz = 0 then Inr (0, s)
      else
        bindR (tryFromFreeList chk usz s sz) (\<lambda>(region, s1).
        if region = 0 then
          bindR (newAllocation chk s1 sz) (\<lambda>(region2, s2).
          if region2 = 0 then Inr (0, s2)
          else bindR (getPayload chk s2 region2) (\<lambda>p. Inr (p, s2)))
        else bindR (getPayload chk s1 region) (\<lambda>p. Inr (p, s1))))"

definition free :: "bool \<Rightarrow> alloc_state \<Rightarrow> u32 \<Rightarrow> fault + alloc_state" where
  "free chk s ptr =
     (if ptr = 0 then Inr s
      else
        let region = fromPayload ptr;
            s1 = set_usedPayload s region 0
        in bindR (mergeIntoExistingFreeRegion chk s1 region) (\<lambda>(merged, s2).
           if \<not> merged then addToFreeList chk s2 region else Inr s2))"

primrec memset :: "(u32 \<Rightarrow> u8) \<Rightarrow> u32 \<Rightarrow> u8 \<Rightarrow> nat \<Rightarrow> (u32 \<Rightarrow> u8)" where
  "memset m p c 0 = m"
| "memset m p c (Suc n) = memset (m(p := c)) (p + 1) c n"

primrec memcpy :: "(u32 \<Rightarrow> u8) \<Rightarrow> u32 \<Rightarrow> u32 \<Rightarrow> nat \<Rightarrow> (u32 \<Rightarrow> u8)" where
  "memcpy m dst src 0 = m"
| "memcpy m dst src (Suc n) = memcpy (m(dst := m src)) (dst + 1) (src + 1) n"

definition calloc :: "bool \<Rightarrow> u32 \<Rightarrow> alloc_state \<Rightarrow> u32 \<Rightarrow> u32 \<Rightarrow> fault + u32 \<times> alloc_state" where
  "calloc chk usz s nmemb sz =
     bindR (malloc chk usz s sz) (\<lambda>(ptr, s1).
     if ptr = 0 then Inr (0, s1)
     else Inr (ptr, s1\<lparr>mem := memset (mem s1) ptr 0 (unat sz)\<rparr>))"

definition realloc :: "bool \<Rightarrow> u32 \<Rightarrow> alloc_state \<Rightarrow> u32 \<Rightarrow> u32 \<Rightarrow> fault + u32 \<times> alloc_state" where
  "realloc chk usz s ptr sz =
     (if ptr = 0 then malloc chk usz s sz
      else if sz = 0 then bindR (free chk s ptr) (\<lambda>s1. Inr (0, s1))
      else
        let region = fromPayload ptr
        in if sz = usedPayload s region then Inr (ptr, s)
           else if sz < usedPayload s region then
             bindR (possiblySplitRemainder chk (set_usedPayload s region sz) region sz) (\<lambda>s2.
             Inr (ptr, s2))
           else if sz \<le> getMaximumPayloadSize s region then
             Inr (ptr, set_usedPayload s region sz)
           else
             let nxt = reg_next s region
             in if nxt \<noteq> 0 \<and> usedPayload s nxt = 0 \<and>
                   sz \<le> getMaximumPayloadSize s region + totalSize s nxt then
                  (let s1 = set_totalSize s region (totalSize s region + totalSize s nxt);
                       s2 = set_usedPayload s1 region sz;
                       s3 = set_reg_next s2 region (reg_next s2 nxt)
                   in bindR (removeFromFreeList chk s3 nxt) (\<lambda>s4. Inr (ptr, s4)))
                else
                  bindR (malloc chk usz s sz) (\<lambda>(newPtr, s1).
                  if newPtr = 0 then Inr (0, s1)
                  else
                    bindR (getPayload chk s1 region) (\<lambda>src.
                    let s2 = s1\<lparr>mem := memcpy (mem s1) newPtr src (unat (usedPayload s1 region))\<rparr>
                    in bindR (free chk s2 ptr) (\<lambda>s3. Inr (newPtr, s3)))))"

text \<open>
  The allocator before its first call: no list, no last region. The memory's contents,
  the break and its limit are the environment's.
\<close>

definition initial :: "(u32 \<Rightarrow> u8) \<Rightarrow> u32 \<Rightarrow> u32 \<Rightarrow> alloc_state" where
  "initial m b lim = \<lparr>mem = m, freeLists = (\<lambda>_. 0), lastRegion = 0, brk = b, brkLimit = lim\<rparr>"

section \<open>Vocabulary of the claims\<close>

text \<open>
  Heap growth fails for a request of \<open>sz\<close> bytes in state \<open>s\<close>: the first
  \<^verbatim>\<open>sbrk\<close> of \<^verbatim>\<open>newAllocation\<close> answers \<^verbatim>\<open>(void*)-1\<close>, or the break it
  answers with is not aligned and the corrective \<^verbatim>\<open>sbrk\<close> answers \<^verbatim>\<open>(void*)-1\<close>.
\<close>

definition heapGrowthFails :: "alloc_state \<Rightarrow> u32 \<Rightarrow> bool" where
  "heapGrowthFails s sz =
     (let sbrkSize = METADATA_SIZE + alignUp sz;
          (ptr, s1) = sbrk s sbrkSize
      in ptr = - 1 \<or> (ptr \<noteq> alignUp ptr \<and> fst (sbrk s1 (alignUp ptr - ptr)) = - 1))"


text \<open>
  The guards of \<^verbatim>\<open>realloc\<close> before its slow path (lines 411 to 444) all say no: the
  pointer and the size are not null, the request is larger than what is used and than
  the capacity, and the right neighbour is missing, used or too small.
\<close>

definition reallocTakesSlowPath :: "alloc_state \<Rightarrow> u32 \<Rightarrow> u32 \<Rightarrow> bool" where
  "reallocTakesSlowPath s ptr sz =
     (let region = fromPayload ptr; nxt = reg_next s region
      in ptr \<noteq> 0 \<and> sz \<noteq> 0 \<and> usedPayload s region < sz \<and>
         getMaximumPayloadSize s region < sz \<and>
         \<not> (nxt \<noteq> 0 \<and> usedPayload s nxt = 0 \<and>
            sz \<le> getMaximumPayloadSize s region + totalSize s nxt))"

text \<open>Two states with the same program break and limit.\<close>

definition same_break :: "alloc_state \<Rightarrow> alloc_state \<Rightarrow> bool" where
  "same_break s s' \<longleftrightarrow> brk s' = brk s \<and> brkLimit s' = brkLimit s"

text \<open>
  What a caller sees of an allocation: the pointer and the capacity of the region it
  points into (\<^verbatim>\<open>totalSize\<close> minus the header). What a caller sees of a release:
  whether it completed.
\<close>

definition allocated :: "fault + u32 \<times> alloc_state \<Rightarrow> fault + u32 \<times> u32" where
  "allocated r = bindR r (\<lambda>(p, s). Inr (p, getMaximumPayloadSize s (fromPayload p)))"

definition completed :: "fault + alloc_state \<Rightarrow> fault + unit" where
  "completed r = bindR r (\<lambda>_. Inr ())"

text \<open>
  Heaps for the concrete runs: \<open>heap0\<close> is untouched, zeroed, with the break at 0x1000
  and room up to 0x2000; \<open>tinyHeap\<close> has room for 16 more bytes only;
  \<open>oneRegionHeap\<close> is the heap after one \<^verbatim>\<open>malloc(1)\<close> that used up all the room
  there was.
\<close>

definition heap0 :: alloc_state where
  "heap0 = initial (\<lambda>_. 0) 0x1000 0x2000"

definition tinyHeap :: alloc_state where
  "tinyHeap = initial (\<lambda>_. 0) 0x1000 0x1010"

definition oneRegionHeap :: alloc_state where
  "oneRegionHeap =
     (case malloc False 1 (initial (\<lambda>_. 0) 0x1000 0x1020) 1 of
        Inr (p, s) \<Rightarrow> s
      | Inl e \<Rightarrow> initial (\<lambda>_. 0) 0x1000 0x1020)"

section \<open>Basic facts\<close>

lemma bindR_Inl [simp]: "bindR (Inl e) f = Inl e"
  by (simp add: bindR_def)

lemma bindR_Inr [simp]: "bindR (Inr x) f = f x"
  by (simp add: bindR_def)

lemma bindR_eq_Inr: "bindR m f = Inr y \<longleftrightarrow> (\<exists>x. m = Inr x \<and> f x = Inr y)"
  by (cases m) simp_all

lemma assert_c_unchecked [simp]: "assert_c False b = Inr ()"
  by (simp add: assert_c_def)

lemma assert_c_checked [simp]: "assert_c True b = (if b then Inr () else Inl AssertionFailed)"
  by (simp add: assert_c_def)

lemma assert_c_True [simp]: "assert_c chk True = Inr ()"
  by (simp add: assert_c_def)

lemma assert_c_eq_Inr: "assert_c chk b = Inr u \<longleftrightarrow> (chk \<longrightarrow> b)"
  by (simp add: assert_c_def)

lemma getFreeListIndex_checked_fault:
  "getFreeListIndex True x = Inl e \<Longrightarrow> e = AssertionFailed"
  by (simp add: getFreeListIndex_def Let_def split: if_splits)

declare tryFromFreeList_speculative.simps [simp del]
declare tryFromFreeList_scan.simps [simp del]

subsection \<open>Loads and stores\<close>

lemma store32_apply:
  "store32 m a v b =
     (if b = a + 3 then ucast (drop_bit 24 v)
      else if b = a + 2 then ucast (drop_bit 16 v)
      else if b = a + 1 then ucast (drop_bit 8 v)
      else if b = a then ucast v
      else m b)"
  by (simp add: store32_def)

lemma word_cat_bytes:
  "ucast (ucast v :: u8) OR push_bit 8 (ucast (ucast (drop_bit 8 v) :: u8)) OR
   push_bit 16 (ucast (ucast (drop_bit 16 v) :: u8)) OR
   push_bit 24 (ucast (ucast (drop_bit 24 v) :: u8)) = (v :: u32)" (is "?lhs = v")
proof (rule bit_eqI)
  fix n
  assume "possible_bit TYPE(u32) n"
  then have n: "n < 32" by (simp add: possible_bit_def)
  consider "n < 8" | "8 \<le> n" "n < 16" | "16 \<le> n" "n < 24" | "24 \<le> n" "n < 32"
    using n by linarith
  then show "bit ?lhs n = bit v n"
    by cases (auto simp: bit_simps)
qed

lemma load32_store32_same: "load32 (store32 m a v) a = v"
  unfolding load32_def store32_apply
  by (simp add: word_cat_bytes)

lemma byte_offsets_cancel:
  fixes a b :: u32
  shows "a + 1 = b + 1 \<longleftrightarrow> a = b" "a + 2 = b + 2 \<longleftrightarrow> a = b" "a + 3 = b + 3 \<longleftrightarrow> a = b"
    "a + 1 = b + 2 \<longleftrightarrow> a = b + 1" "a + 1 = b + 3 \<longleftrightarrow> a = b + 2" "a + 2 = b + 3 \<longleftrightarrow> a = b + 1"
    "a + 2 = b + 1 \<longleftrightarrow> b = a + 1" "a + 3 = b + 1 \<longleftrightarrow> b = a + 2" "a + 3 = b + 2 \<longleftrightarrow> b = a + 1"
  by auto

lemma load32_store32_disj:
  "b \<noteq> a \<Longrightarrow> b \<noteq> a + 1 \<Longrightarrow> b \<noteq> a + 2 \<Longrightarrow> b \<noteq> a + 3 \<Longrightarrow>
   a \<noteq> b + 1 \<Longrightarrow> a \<noteq> b + 2 \<Longrightarrow> a \<noteq> b + 3 \<Longrightarrow>
   load32 (store32 m a v) b = load32 m b"
  unfolding load32_def store32_apply
  by (simp add: byte_offsets_cancel)

lemma load32_upd_other:
  "c \<noteq> b \<Longrightarrow> c \<noteq> b + 1 \<Longrightarrow> c \<noteq> b + 2 \<Longrightarrow> c \<noteq> b + 3 \<Longrightarrow>
   load32 (m(c := x)) b = load32 m b"
  by (simp add: load32_def)

subsection \<open>Alignment and powers of two\<close>









lemma clz_below_le: "bit x n \<Longrightarrow> n < k \<Longrightarrow> clz_below k x \<le> k - 1 - n"
proof (induction k)
  case 0
  then show ?case by simp
next
  case (Suc k)
  show ?case
  proof (cases "bit x k")
    case True
    then show ?thesis by simp
  next
    case False
    with Suc.prems have "n < k"
      by (metis less_antisym)
    with Suc.IH Suc.prems(1) False show ?thesis
      by simp
  qed
qed

lemma take_bit5_small:
  assumes "take_bit 5 (x :: u32) = x"
  shows "x < 32"
proof -
  have "unat (take_bit 5 x) = take_bit 5 (unat x)"
    by (rule unsigned_take_bit_eq)
  also have "\<dots> = unat x mod 2 ^ 5"
    by (rule take_bit_eq_mod)
  finally have "unat (take_bit 5 x) = unat x mod 2 ^ 5" .
  with assms have "unat x = unat x mod 32"
    by simp
  moreover have "unat x mod 32 < 32"
    by simp
  ultimately have "unat x < 32"
    by metis
  then show ?thesis
    by (simp add: word_less_nat_alt)
qed

lemma high_bit_exists:
  fixes x :: u32
  assumes "32 \<le> x"
  shows "\<exists>n. 5 \<le> n \<and> n < 32 \<and> bit x n"
proof (rule ccontr)
  assume none: "\<not> ?thesis"
  have "take_bit 5 x = x"
  proof (rule bit_eqI)
    fix n
    assume "possible_bit TYPE(u32) n"
    then have n: "n < 32" by (simp add: possible_bit_def)
    show "bit (take_bit 5 x) n = bit x n"
    proof (cases "n < 5")
      case True
      then show ?thesis by (simp add: bit_take_bit_iff)
    next
      case False
      with none n have "\<not> bit x n" by auto
      with False show ?thesis by (simp add: bit_take_bit_iff)
    qed
  qed
  then have "x < 32"
    by (rule take_bit5_small)
  with assms show False
    by simp
qed

lemma unat_two_power:
  assumes "k < 32"
  shows "unat (2 ^ k :: u32) = 2 ^ k"
proof -
  have "(2 :: nat) ^ k < 2 ^ 32"
    by (rule power_strict_increasing [OF assms]) simp
  moreover have "(2 ^ k :: u32) = of_nat (2 ^ k)"
    by simp
  ultimately show ?thesis
    by (simp only: unat_of_nat) simp
qed

lemma push_bit_one_ge:
  assumes "5 \<le> k" "k < 32"
  shows "32 \<le> (push_bit k 1 :: u32)"
proof -
  have "unat (2 ^ k :: u32) = 2 ^ k"
    using assms(2) by (rule unat_two_power)
  moreover have "(2 :: nat) ^ 5 \<le> 2 ^ k"
    using assms(1) by (rule power_increasing) simp
  ultimately show ?thesis
    by (simp add: push_bit_eq_mult word_le_nat_alt)
qed

lemma lowerBoundByPowerOf2_ge32:
  assumes "32 \<le> x"
  shows "32 \<le> lowerBoundByPowerOf2 x"
proof -
  from assms have nz: "x \<noteq> 0"
    by auto
  obtain n where n: "5 \<le> n" "n < 32" "bit x n"
    using high_bit_exists [OF assms] by blast
  have "builtin_clz x \<le> 31 - n"
    using clz_below_le [OF n(3) n(2)] by (simp add: builtin_clz_def)
  with n have "5 \<le> 31 - builtin_clz x" "31 - builtin_clz x < 32"
    by simp_all
  then have "32 \<le> (push_bit (31 - builtin_clz x) 1 :: u32)"
    by (rule push_bit_one_ge)
  with assms nz show ?thesis
    by (simp add: lowerBoundByPowerOf2_def)
qed

lemma popcount_one_bit:
  assumes "builtin_popcount x = 1" "bit x n" "bit x m"
  shows "m = n"
proof (rule ccontr)
  assume ne: "m \<noteq> n"
  have lt: "n < 32" "m < 32"
    using assms(2,3) bit_imp_le_length [of x n] bit_imp_le_length [of x m] by simp_all
  have "distinct (filter (bit x) [0..<32])"
    by simp
  then have len: "length (filter (bit x) [0..<32]) = card (set (filter (bit x) [0..<32]))"
    by (simp only: distinct_card)
  have "{m, n} \<subseteq> set (filter (bit x) [0..<32])"
    using assms(2,3) lt by simp
  then have "card {m, n} \<le> card (set (filter (bit x) [0..<32]))"
    by (intro card_mono) simp_all
  moreover have "card {m, n} = 2"
    using ne by simp
  ultimately show False
    using assms(1) len by (simp add: builtin_popcount_def)
qed

lemma isPowerOf2_low_bits:
  assumes "isPowerOf2 x" "32 \<le> x"
  shows "unat x mod 32 = 0"
proof -
  obtain n where n: "5 \<le> n" "bit x n"
    using high_bit_exists [OF assms(2)] by blast
  have one: "builtin_popcount x = 1"
    using assms(1) by (simp add: isPowerOf2_def)
  have "take_bit 5 x = 0"
  proof (rule bit_eqI)
    fix k
    assume "possible_bit TYPE(u32) k"
    show "bit (take_bit 5 x) k = bit (0 :: u32) k"
    proof (cases "k < 5 \<and> bit x k")
      case True
      then have "k = n"
        using popcount_one_bit [OF one n(2)] by simp
      with True n(1) show ?thesis
        by simp
    next
      case False
      then show ?thesis
        by (auto simp: bit_take_bit_iff)
    qed
  qed
  then have "unat (take_bit 5 x) = 0"
    by simp
  moreover have "unat (take_bit 5 x) = take_bit 5 (unat x)"
    by (rule unsigned_take_bit_eq)
  moreover have "take_bit 5 (unat x) = unat x mod 2 ^ 5"
    by (rule take_bit_eq_mod)
  ultimately show ?thesis
    by simp
qed

lemma lowerBound_mod32:
  assumes "32 \<le> x"
  shows "unat (lowerBoundByPowerOf2 x) mod 32 = 0"
proof (cases "isPowerOf2 x")
  case True
  from assms have "x \<noteq> 0"
    by auto
  with True isPowerOf2_low_bits [OF True assms] show ?thesis
    by (simp add: lowerBoundByPowerOf2_def)
next
  case False
  from assms have nz: "x \<noteq> 0"
    by auto
  obtain n where n: "5 \<le> n" "n < 32" "bit x n"
    using high_bit_exists [OF assms] by blast
  define k where "k = 31 - builtin_clz x"
  have "builtin_clz x \<le> 31 - n"
    using clz_below_le [OF n(3) n(2)] by (simp add: builtin_clz_def)
  with n have k: "5 \<le> k" "k < 32"
    by (simp_all add: k_def)
  have u: "unat (2 ^ k :: u32) = 2 ^ k"
    using k(2) by (rule unat_two_power)
  have "(2 :: nat) ^ 5 dvd 2 ^ k"
    using k(1) by (rule le_imp_power_dvd)
  then have "(2 :: nat) ^ k mod 2 ^ 5 = 0"
    by (rule dvd_imp_mod_0)
  with u have "unat (push_bit k 1 :: u32) mod 32 = 0"
    by (simp add: push_bit_eq_mult)
  with False nz show ?thesis
    by (simp add: lowerBoundByPowerOf2_def k_def)
qed


subsection \<open>The value of the size class\<close>

lemma lowerBound_16_to_31:
  "lowerBoundByPowerOf2 16 = 16" "lowerBoundByPowerOf2 17 = 16" "lowerBoundByPowerOf2 18 = 16"
  "lowerBoundByPowerOf2 19 = 16" "lowerBoundByPowerOf2 20 = 16" "lowerBoundByPowerOf2 21 = 16"
  "lowerBoundByPowerOf2 22 = 16" "lowerBoundByPowerOf2 23 = 16" "lowerBoundByPowerOf2 24 = 16"
  "lowerBoundByPowerOf2 25 = 16" "lowerBoundByPowerOf2 26 = 16" "lowerBoundByPowerOf2 27 = 16"
  "lowerBoundByPowerOf2 28 = 16" "lowerBoundByPowerOf2 29 = 16" "lowerBoundByPowerOf2 30 = 16"
  "lowerBoundByPowerOf2 31 = 16"
  by code_simp+

lemma word_between_16_32:
  fixes c :: u32
  assumes "16 \<le> c" "c < 32"
  shows "c \<in> {16, 17, 18, 19, 20, 21, 22, 23, 24, 25, 26, 27, 28, 29, 30, 31}"
proof -
  have "16 \<le> unat c" "unat c < 32"
    using assms by (simp_all add: word_le_nat_alt word_less_nat_alt)
  then have "unat c \<in> {16, 17, 18, 19, 20, 21, 22, 23, 24, 25, 26, 27, 28, 29, 30, 31}"
    by simp arith
  then have "of_nat (unat c) \<in> (of_nat ` {16, 17, 18, 19, 20, 21, 22, 23, 24, 25, 26, 27, 28, 29, 30, 31} :: u32 set)"
    by (rule imageI)
  then show ?thesis
    by simp
qed

lemma lowerBound_small:
  assumes "16 \<le> c" "c < 32"
  shows "lowerBoundByPowerOf2 c = 16"
  using word_between_16_32 [OF assms] by (auto simp: lowerBound_16_to_31)

lemma getFreeListIndex_checked_value:
  "getFreeListIndex True c = (if c = 0 \<or> 32 \<le> c then Inl AssertionFailed else Inr 16)"
proof (cases "c = 0 \<or> 32 \<le> c")
  case True
  then show ?thesis
  proof
    assume "c = 0"
    then show ?thesis by (simp add: getFreeListIndex_def)
  next
    assume big: "32 \<le> c"
    then have "\<not> c < 16" by (simp add: word_le_nat_alt word_less_nat_alt)
    moreover have "\<not> lowerBoundByPowerOf2 c < 32"
      using lowerBoundByPowerOf2_ge32 [OF big] by simp
    ultimately show ?thesis
      using big by (simp add: getFreeListIndex_def Let_def MIN_ALLOC_def ALIGNMENT_def
          MAX_FREELIST_INDEX_def MIN_FREELIST_INDEX_def)
  qed
next
  case False
  then have nz: "c \<noteq> 0" and lt: "c < 32"
    by (simp_all add: not_le)
  have not_big: "\<not> 32 \<le> c"
    using lt by simp
  show ?thesis
  proof (cases "c < 16")
    case True
    with nz not_big show ?thesis
      by (simp add: getFreeListIndex_def Let_def MIN_ALLOC_def ALIGNMENT_def
          MAX_FREELIST_INDEX_def MIN_FREELIST_INDEX_def word_gt_0 lowerBound_16_to_31)
  next
    case False
    then have "lowerBoundByPowerOf2 c = 16"
      using lt by (simp add: lowerBound_small)
    with False nz not_big show ?thesis
      by (simp add: getFreeListIndex_def Let_def MIN_ALLOC_def ALIGNMENT_def
          MAX_FREELIST_INDEX_def MIN_FREELIST_INDEX_def word_gt_0)
  qed
qed

lemma getFreeListIndex_unchecked_value:
  "\<exists>r. getFreeListIndex False c = Inr r \<and> 16 \<le> r"
proof -
  have "16 \<le> lowerBoundByPowerOf2 (if c < 16 then 16 else c)"
  proof (cases "c < 16")
    case True
    then show ?thesis by (simp add: lowerBound_16_to_31)
  next
    case False
    then have ge: "16 \<le> c" by simp
    show ?thesis
    proof (cases "c < 32")
      case True
      with False ge show ?thesis by (simp add: lowerBound_small)
    next
      case False
      then have "32 \<le> c" by simp
      then have "32 \<le> lowerBoundByPowerOf2 c"
        by (rule lowerBoundByPowerOf2_ge32)
      then have "16 \<le> lowerBoundByPowerOf2 c"
        by (simp add: word_le_nat_alt)
      with \<open>\<not> c < 16\<close> show ?thesis by simp
    qed
  qed
  then show ?thesis
    by (auto simp: getFreeListIndex_def Let_def MIN_ALLOC_def ALIGNMENT_def split: if_splits)
qed

subsection \<open>The free-list search, the break, fresh regions\<close>

lemma getFreeListIndex_Inr:
  assumes "getFreeListIndex chk sz = Inr i"
  shows "i = lowerBoundByPowerOf2 (if sz < 16 then 16 else sz)" and "chk \<Longrightarrow> i < 32"
  using assms
  by (auto simp: getFreeListIndex_def Let_def bindR_eq_Inr assert_c_eq_Inr MIN_ALLOC_def
      ALIGNMENT_def MAX_FREELIST_INDEX_def split: if_splits)

lemma tryFromFreeList_unchecked_large:
  assumes "32 \<le> sz"
  shows "tryFromFreeList False usz s sz = Inr (0, s)"
proof -
  define i where "i = lowerBoundByPowerOf2 sz"
  from assms have n16: "\<not> sz < 16" and n1: "\<not> sz < 1"
    by (simp_all add: word_le_nat_alt word_less_nat_alt)
  have idx: "getFreeListIndex False sz = Inr i"
    using n16 by (simp add: getFreeListIndex_def Let_def MIN_ALLOC_def ALIGNMENT_def i_def)
  have big: "32 \<le> i"
    unfolding i_def by (rule lowerBoundByPowerOf2_ge32 [OF assms])
  have "getMinSizeForFreeListIndex i = 1"
    using lowerBound_mod32 [OF assms] by (simp add: getMinSizeForFreeListIndex_def i_def)
  moreover have "\<not> i < MAX_FREELIST_INDEX"
    using big by (simp add: MAX_FREELIST_INDEX_def)
  then have "tryFromFreeList_scan False usz s i = Inr (0, s)"
    by (simp add: tryFromFreeList_scan.simps)
  ultimately show ?thesis
    using idx n1 by (simp add: tryFromFreeList_def)
qed


lemma speculative_shape:
  "tryFromFreeList_speculative chk usz s sz freeInfo tries = Some res \<Longrightarrow>
   \<exists>fi. fi \<noteq> 0 \<and> useFreeInfo chk usz s fi = res"
proof (induction chk usz s sz freeInfo tries rule: tryFromFreeList_speculative.induct)
  case (1 chk usz s sz freeInfo tries)
  then show ?case
    by (subst (asm) (2) tryFromFreeList_speculative.simps) (auto split: if_splits)
qed

lemma scan_shape:
  "tryFromFreeList_scan chk usz s index = Inr (r, s') \<Longrightarrow>
   (r = 0 \<and> s' = s) \<or> (\<exists>fi. fi \<noteq> 0 \<and> useFreeInfo chk usz s fi = Inr (r, s'))"
proof (induction chk usz s index rule: tryFromFreeList_scan.induct)
  case (1 chk usz s index)
  then show ?case
    by (subst (asm) (2) tryFromFreeList_scan.simps) (auto split: if_splits)
qed

lemma tryFromFreeList_shape:
  assumes "tryFromFreeList chk usz s sz = Inr (r, s')"
  shows "(r = 0 \<and> s' = s) \<or> (\<exists>fi. fi \<noteq> 0 \<and> useFreeInfo chk usz s fi = Inr (r, s'))"
  using assms
  by (auto simp: tryFromFreeList_def bindR_eq_Inr split: if_splits option.splits
      dest: speculative_shape scan_shape)


lemma same_break_refl [simp]: "same_break s s"
  by (simp add: same_break_def)

lemma same_break_trans: "same_break s s1 \<Longrightarrow> same_break s1 s2 \<Longrightarrow> same_break s s2"
  by (simp add: same_break_def)

lemma same_break_setters [simp]:
  "same_break s (set_totalSize s r v)" "same_break s (set_usedPayload s r v)"
  "same_break s (set_reg_prev s r v)" "same_break s (set_reg_next s r v)"
  "same_break s (set_fi_prev s r v)" "same_break s (set_fi_next s r v)"
  by (simp_all add: same_break_def set_totalSize_def set_usedPayload_def set_reg_prev_def
      set_reg_next_def set_fi_prev_def set_fi_next_def)

lemma brk_setters [simp]:
  "brk (set_totalSize s r v) = brk s" "brk (set_usedPayload s r v) = brk s"
  "brk (set_reg_prev s r v) = brk s" "brk (set_reg_next s r v) = brk s"
  "brk (set_fi_prev s r v) = brk s" "brk (set_fi_next s r v) = brk s"
  "brkLimit (set_totalSize s r v) = brkLimit s" "brkLimit (set_usedPayload s r v) = brkLimit s"
  "brkLimit (set_reg_prev s r v) = brkLimit s" "brkLimit (set_reg_next s r v) = brkLimit s"
  "brkLimit (set_fi_prev s r v) = brkLimit s" "brkLimit (set_fi_next s r v) = brkLimit s"
  by (simp_all add: set_totalSize_def set_usedPayload_def set_reg_prev_def
      set_reg_next_def set_fi_prev_def set_fi_next_def)









lemma word_pos: "(0 < (x :: u32)) = (x \<noteq> 0)"
  by (simp add: word_gt_0)



lemma newAllocation_fails_cases:
  assumes "heapGrowthFails s sz" "sz \<noteq> 0"
  shows "newAllocation chk s sz = Inr (0, s) \<or>
         (\<exists>b. newAllocation chk s sz = Inr (0, s\<lparr>brk := b\<rparr>))"
  using assms
  by (auto simp: heapGrowthFails_def newAllocation_def sbrk_def Let_def word_pos
      split: if_splits prod.splits)

lemma newAllocation_fails:
  assumes "heapGrowthFails s sz" "sz \<noteq> 0"
  shows "\<exists>b. newAllocation chk s sz = Inr (0, s\<lparr>brk := b\<rparr>)"
proof -
  have "s\<lparr>brk := brk s\<rparr> = s" by simp
  with newAllocation_fails_cases [OF assms, of chk] show ?thesis
    by metis
qed










subsection \<open>With assertions compiled in\<close>

lemma removeFromFreeList_checked: "removeFromFreeList True s region = Inl AssertionFailed"
proof (cases "usedPayload s region = 0")
  case True
  then show ?thesis
    by (simp add: removeFromFreeList_def)
next
  case False
  have "getFreeInfo True s region = Inl AssertionFailed"
    using False by (simp add: getFreeInfo_def)
  moreover have "(\<exists>i. getFreeListIndex True (getMaximumPayloadSize s region) = Inr i) \<or>
      getFreeListIndex True (getMaximumPayloadSize s region) = Inl AssertionFailed"
    by (cases "getFreeListIndex True (getMaximumPayloadSize s region)")
      (auto dest: getFreeListIndex_checked_fault)
  ultimately show ?thesis
    using False by (auto simp: removeFromFreeList_def)
qed

lemma addToFreeList_checked: "addToFreeList True s region = Inl AssertionFailed"
proof (cases "usedPayload s region = 0")
  case True
  then show ?thesis
    by (simp add: addToFreeList_def)
next
  case False
  have "getFreeInfo True s region = Inl AssertionFailed"
    using False by (simp add: getFreeInfo_def)
  moreover have "(\<exists>i. getFreeListIndex True (getMaximumPayloadSize s region) = Inr i) \<or>
      getFreeListIndex True (getMaximumPayloadSize s region) = Inl AssertionFailed"
    by (cases "getFreeListIndex True (getMaximumPayloadSize s region)")
      (auto dest: getFreeListIndex_checked_fault)
  ultimately show ?thesis
    using False by (auto simp: addToFreeList_def)
qed

lemma useFreeInfo_checked: "useFreeInfo True usz s freeInfo = Inl AssertionFailed"
  by (simp add: useFreeInfo_def Let_def removeFromFreeList_checked)

lemma tryFromFreeList_checked:
  assumes "tryFromFreeList True usz s sz = Inr (r, s')"
  shows "r = 0 \<and> s' = s"
  using tryFromFreeList_shape [OF assms] by (simp add: useFreeInfo_checked)

lemma usedPayload_initRegion: "usedPayload (initRegion s region tsize upayload) region = upayload"
  by (simp add: usedPayload_def initRegion_def set_reg_next_def set_reg_prev_def
      set_usedPayload_def set_totalSize_def load32_store32_same load32_store32_disj)

lemma newAllocation_region_checked:
  "sz \<noteq> 0 \<Longrightarrow> newAllocation_region True s fixedPtr sbrkSize sz = Inl AssertionFailed"
  by (simp add: newAllocation_region_def Let_def useRegion_def usedPayload_initRegion)

lemma newAllocation_checked:
  assumes "newAllocation True s sz = Inr (r, s')"
  shows "r = 0"
proof -
  from assms have nz: "sz \<noteq> 0"
    by (auto simp: newAllocation_def bindR_eq_Inr split: if_splits)
  with assms show ?thesis
    by (auto simp: newAllocation_def Let_def newAllocation_region_checked
        split: if_splits prod.splits)
qed

lemma malloc_checked:
  assumes "malloc True usz s sz = Inr (p, s')"
  shows "p = 0"
  using assms
  by (auto simp: malloc_def bindR_eq_Inr split: if_splits
      dest!: tryFromFreeList_checked newAllocation_checked)

lemma malloc_checked_large:
  assumes "32 \<le> sz"
  shows "malloc True usz s sz = Inl AssertionFailed"
proof -
  from assms have "sz \<noteq> 0"
    by auto
  then show ?thesis
    using assms by (simp add: malloc_def tryFromFreeList_def getFreeListIndex_checked_value)
qed

lemma free_checked: "free True s ptr = (if ptr = 0 then Inr s else Inl AssertionFailed)"
  by (simp add: free_def mergeIntoExistingFreeRegion_def Let_def removeFromFreeList_checked
      addToFreeList_checked)

subsection \<open>Running the code on concrete heaps\<close>

text \<open>
  The concrete runs below are computed by rewriting with the definitions of the model:
  every load is resolved against the stores before it.
\<close>

lemma memset_numeral:
  "memset m p c (numeral k) = memset (m(p := c)) (p + 1) c (pred_numeral k)"
  by (simp add: numeral_eq_Suc)

lemma lowerBound_values:
  "lowerBoundByPowerOf2 32 = 32" "lowerBoundByPowerOf2 40 = 32"
  "lowerBoundByPowerOf2 48 = 32" "lowerBoundByPowerOf2 64 = 64"
  by code_simp+

lemmas exec =
  malloc_def free_def calloc_def realloc_def tryFromFreeList_def newAllocation_def
  newAllocation_region_def mergeIntoExistingFreeRegion_def useFreeInfo_def useRegion_def
  possiblySplitRemainder_def addToFreeList_def removeFromFreeList_def
  tryFromFreeList_scan.simps tryFromFreeList_speculative.simps
  getFreeListIndex_def getMinSizeForFreeListIndex_def getFreeInfo_def getPayload_def
  getAfter_def getMaximumPayloadSize_def fromPayload_def fromFreeInfo_def initRegion_def
  totalSize_def usedPayload_def reg_prev_def reg_next_def fi_prev_def fi_next_def
  set_totalSize_def set_usedPayload_def set_reg_prev_def set_reg_next_def
  set_fi_prev_def set_fi_next_def readFreeLists_def writeFreeLists_def sbrk_def
  alignUp_def ALIGNMENT_def MIN_ALLOC_def METADATA_SIZE_def MIN_REGION_SIZE_def
  MIN_FREELIST_INDEX_def MAX_FREELIST_INDEX_def SPECULATIVE_FREELIST_TRIES_def
  initial_def heap0_def tinyHeap_def oneRegionHeap_def allocated_def completed_def
  heapGrowthFails_def reallocTakesSlowPath_def
  Let_def lowerBound_16_to_31 lowerBound_values load32_store32_same load32_store32_disj
  load32_upd_other store32_apply memset_numeral

section \<open>What a successful allocation returns\<close>

text \<open>
  C1 says that for every size > 0 a non-null result of \<^verbatim>\<open>malloc\<close> is 16-byte aligned
  and points into a region whose capacity is at least the size, whether the region comes
  from the free lists or from fresh heap growth.

  With assertions compiled in, \<^verbatim>\<open>malloc\<close> never returns a non-null pointer, in any
  state: a free-list hit stops in \<^verbatim>\<open>removeFromFreeList\<close>, and a fresh region stops in
  \<^verbatim>\<open>useRegion\<close>, which asserts \<^verbatim>\<open>!region->usedPayload\<close> right after
  \<^verbatim>\<open>initRegion(region, sbrkSize, size)\<close> has set it to the size.

  With assertions compiled out: \<^verbatim>\<open>malloc(1)\<close>, \<^verbatim>\<open>free\<close>, then \<^verbatim>\<open>malloc(20)\<close>.
  \<^verbatim>\<open>tryFromFreeList(20)\<close> starts at the class of the lower bound of 20, which is where
  the freed region of capacity 16 was filed, and takes it. If the unbound \<^verbatim>\<open>size\<close> of
  \<^verbatim>\<open>useFreeInfo\<close> is the request (20), the remainder 16 - 20 wraps around, the split
  fires and the run ends indexing \<^verbatim>\<open>freeLists\<close> out of bounds; if it is 16, the call
  returns the region of capacity 16 for the request of 20 bytes.
\<close>

theorem malloc_hit_below_request:
  "(case malloc True usz s sz of Inl e \<Rightarrow> True | Inr (p, s') \<Rightarrow> p = 0) \<and>
   bindR (malloc False 1 heap0 1) (\<lambda>(p, s1).
   bindR (free False s1 p) (\<lambda>s2.
   Inr (p, allocated (malloc False 20 s2 20), allocated (malloc False 16 s2 20)))) =
   Inr (0x1010, Inl OutOfBounds, Inr (0x1010, 16))"
proof
  show "case malloc True usz s sz of Inl e \<Rightarrow> True | Inr (p, s') \<Rightarrow> p = 0"
    by (auto split: sum.splits dest: malloc_checked)
  show "bindR (malloc False 1 heap0 1) (\<lambda>(p, s1).
   bindR (free False s1 p) (\<lambda>s2.
   Inr (p, allocated (malloc False 20 s2 20), allocated (malloc False 16 s2 20)))) =
   Inr (0x1010, Inl OutOfBounds, Inr (0x1010, 16))"
    by (simp add: exec)
qed

section \<open>The size class of a capacity\<close>

text \<open>
  C2 says that \<^verbatim>\<open>getFreeListIndex\<close> returns the exponent K with 2^K \<le> c < 2^(K+1), a
  valid index of the table. The function returns \<^verbatim>\<open>lowerBoundByPowerOf2(size)\<close> as it
  is: the power of two, not its exponent. With assertions compiled in, the result for
  any capacity is 16 (for capacities 1 to 31, where K is at most 4) or a failed
  assertion (for 0, and for every capacity from 32 on, where the function's own last
  assertion \<^verbatim>\<open>MIN_FREELIST_INDEX <= ret && ret < MAX_FREELIST_INDEX\<close> fails). With
  assertions compiled out the result is never below 16. For the capacity 100, where K is
  6, the result is 64; for the capacity 16, where K is 4, it is 16.
\<close>

theorem getFreeListIndex_is_power_not_exponent:
  "getFreeListIndex True c = (if c = 0 \<or> 32 \<le> c then Inl AssertionFailed else Inr 16) \<and>
   (\<exists>r. getFreeListIndex False c = Inr r \<and> 16 \<le> r) \<and>
   getFreeListIndex False 100 = Inr 64 \<and>
   getFreeListIndex False 16 = Inr 16 \<and>
   (2 :: nat) ^ 6 \<le> 100 \<and> (100 :: nat) < 2 ^ 7"
proof -
  have "getFreeListIndex False 100 = Inr 64" "getFreeListIndex False 16 = Inr 16"
    by code_simp+
  then show ?thesis
    using getFreeListIndex_checked_value [of c] getFreeListIndex_unchecked_value [of c]
    by simp
qed

section \<open>The requested size on a free-list hit\<close>

text \<open>
  C3 says that on a free-list hit the chosen region is removed from its list, its
  \<^verbatim>\<open>usedPayload\<close> becomes exactly the requested size, and the split is computed against
  that size. \<^verbatim>\<open>useFreeInfo\<close> does not receive the request. After \<^verbatim>\<open>malloc(16)\<close> and
  \<^verbatim>\<open>free\<close>, a request of 5 bytes and a request of 12 bytes both hit the freed region
  and remove it from list 16, and both leave \<^verbatim>\<open>usedPayload\<close> at the value of the
  unbound \<^verbatim>\<open>size\<close> (9 here), not at the request. With assertions compiled in the hit
  stops at the first assertion of \<^verbatim>\<open>removeFromFreeList\<close>.
\<close>

theorem free_list_hit_ignores_request:
  "bindR (malloc False 16 heap0 16) (\<lambda>(p, s1).
   bindR (free False s1 p) (\<lambda>s2.
   Inr (p, freeLists s2 16,
        bindR (malloc False 9 s2 5) (\<lambda>(q, s3).
          Inr (q, usedPayload s3 (fromPayload q), freeLists s3 16)),
        bindR (malloc False 9 s2 12) (\<lambda>(q, s3).
          Inr (q, usedPayload s3 (fromPayload q), freeLists s3 16)),
        allocated (malloc True 5 s2 5)))) =
   Inr (0x1010, 0x1010, Inr (0x1010, 9, 0), Inr (0x1010, 9, 0), Inl AssertionFailed)"
  by (simp add: exec)

section \<open>Zero-filled allocation\<close>

text \<open>
  C4 says that \<^verbatim>\<open>calloc(count, elementSize)\<close> allocates count times elementSize bytes
  and zero-fills all of them, so that \<^verbatim>\<open>calloc(4, 4)\<close> returns 16 zeroed bytes.
  \<^verbatim>\<open>calloc(nmemb, size)\<close> never reads \<^verbatim>\<open>nmemb\<close>: it allocates \<^verbatim>\<open>size\<close> bytes and
  zeroes \<^verbatim>\<open>size\<close> bytes. First run: a block of 16 bytes is filled with 0xFF by its
  owner and released; \<^verbatim>\<open>calloc(4, 4)\<close> then returns the same block, marked used for 4
  bytes, and the bytes at offsets 8 and 15 are still 0xFF. Second run:
  \<^verbatim>\<open>calloc(100, 1)\<close> on the untouched heap returns a block used for 1 byte in a
  region of capacity 16.
\<close>

theorem calloc_ignores_count:
  "bindR (malloc False 16 heap0 16) (\<lambda>(p, s1).
   bindR (free False (s1\<lparr>mem := memset (mem s1) p 0xFF 16\<rparr>) p) (\<lambda>s2.
   bindR (calloc False 4 s2 4 4) (\<lambda>(q, s3).
   Inr (p, q, usedPayload s3 (fromPayload q),
        map (mem s3) [q, q + 1, q + 2, q + 3, q + 4, q + 8, q + 15])))) =
   Inr (0x1010, 0x1010, 4, [0, 0, 0, 0, 0, 0xFF, 0xFF]) \<and>
   bindR (calloc False 1 heap0 100 1) (\<lambda>(q, s).
   Inr (q, usedPayload s (fromPayload q), getMaximumPayloadSize s (fromPayload q))) =
   Inr (0x1010, 1, 16)"
  by (simp add: exec)
section \<open>The region carved off by a split\<close>

text \<open>
  C5 says that when the split fires, the carved-off region is free
  (\<^verbatim>\<open>usedPayload == 0\<close>), lies right after the committed payload, and that the two
  \<^verbatim>\<open>totalSize\<close> values partition the extent of the original region.
  The run: \<^verbatim>\<open>a = malloc(20)\<close>, \<^verbatim>\<open>b = malloc(1)\<close>, \<^verbatim>\<open>free(b)\<close>,
  \<^verbatim>\<open>realloc(a, 40)\<close> (absorbs b: \<^verbatim>\<open>totalSize\<close> 80), \<^verbatim>\<open>realloc(a, 16)\<close>
  (remainder 64 - 16 = 48: the split fires). Afterwards the carved-off region at 0x1020 is
  filed in list 16 with \<^verbatim>\<open>usedPayload\<close> 16, not 0, and \<^verbatim>\<open>totalSize\<close> 32, the distance
  from the original region to the split point, while the original region still has
  \<^verbatim>\<open>totalSize\<close> 80: \<^verbatim>\<open>initRegion(split, totalSplitSize, size)\<close> gives the new region the
  size of the part before it and the used size of the original, and the original's
  \<^verbatim>\<open>totalSize\<close> is never reduced.
\<close>

theorem split_region_not_free_not_remainder:
  "bindR (malloc False 20 heap0 20) (\<lambda>(a, s1).
   bindR (malloc False 1 s1 1) (\<lambda>(b, s2).
   bindR (free False s2 b) (\<lambda>s3.
   bindR (realloc False 40 s3 a 40) (\<lambda>(a2, s4).
   bindR (realloc False 16 s4 a2 16) (\<lambda>(a3, s5).
   Inr (fromPayload a, totalSize s4 (fromPayload a), usedPayload s4 (fromPayload a),
        totalSize s5 (fromPayload a), usedPayload s5 (fromPayload a),
        reg_next s5 (fromPayload a), freeLists s5 16,
        totalSize s5 0x1020, usedPayload s5 0x1020)))))) =
   Inr (0x1000, 80, 40, 80, 16, 0x1020, 0x1030, 32, 16)"
  by (simp add: exec)

section \<open>Coalescing on release\<close>

text \<open>
  C6 says that after any release completes no two adjacent regions are both free,
  because release merges a free left neighbour (and then the right one), else a free
  right neighbour.

  With assertions compiled in, \<^verbatim>\<open>free\<close> of any non-null pointer stops at an
  assertion, in any state.

  With assertions compiled out, a release that merges does not complete:
  \<^verbatim>\<open>a = malloc(1)\<close>, \<^verbatim>\<open>b = malloc(1)\<close>, \<^verbatim>\<open>free(a)\<close>, \<^verbatim>\<open>free(b)\<close>. The second release
  finds its left neighbour free, grows it to \<^verbatim>\<open>totalSize\<close> 64 and calls
  \<^verbatim>\<open>addToFreeList\<close>, where \<^verbatim>\<open>getFreeListIndex(48)\<close> is 32 and \<^verbatim>\<open>freeLists[32]\<close> is
  out of bounds.

  And releases that complete leave two neighbours free. The run: \<^verbatim>\<open>d = malloc(1)\<close>,
  \<^verbatim>\<open>a = malloc(20)\<close>, \<^verbatim>\<open>b = malloc(1)\<close>, \<^verbatim>\<open>c = malloc(1)\<close>, \<^verbatim>\<open>free(d)\<close>,
  \<^verbatim>\<open>free(b)\<close>, \<^verbatim>\<open>realloc(a, 40)\<close> (absorbs b; \<^verbatim>\<open>c->prev\<close> still points to b),
  \<^verbatim>\<open>realloc(a, 16)\<close> (splits off the region at 0x1040, whose \<^verbatim>\<open>next\<close> is c),
  \<^verbatim>\<open>x = malloc(8)\<close> (takes the split-off region; the unbound \<^verbatim>\<open>size\<close> of
  \<^verbatim>\<open>useFreeInfo\<close> is the request), \<^verbatim>\<open>free(x)\<close>, \<^verbatim>\<open>free(c)\<close>. The last release looks at
  \<^verbatim>\<open>c->prev\<close>, the absorbed header of b, whose bytes now hold the free-list links of the
  region at 0x1040 and read as a non-zero \<^verbatim>\<open>usedPayload\<close>; it merges nothing and
  completes. The region at 0x1040 and its \<^verbatim>\<open>next\<close> neighbour c are then both free.
\<close>

theorem release_leaves_free_neighbours:
  "free True s ptr = (if ptr = 0 then Inr s else Inl AssertionFailed) \<and>
   bindR (malloc False 1 heap0 1) (\<lambda>(a, s1).
   bindR (malloc False 1 s1 1) (\<lambda>(b, s2).
   bindR (free False s2 a) (\<lambda>s3.
   Inr (fromPayload a, fromPayload b, reg_prev s3 (fromPayload b),
        usedPayload s3 (fromPayload a), completed (free False s3 b))))) =
   Inr (0x1000, 0x1020, 0x1000, 0, Inl OutOfBounds) \<and>
   bindR (malloc False 1 heap0 1) (\<lambda>(d, s1).
   bindR (malloc False 20 s1 20) (\<lambda>(a, s2).
   bindR (malloc False 1 s2 1) (\<lambda>(b, s3).
   bindR (malloc False 1 s3 1) (\<lambda>(c, s4).
   bindR (free False s4 d) (\<lambda>s5.
   bindR (free False s5 b) (\<lambda>s6.
   bindR (realloc False 40 s6 a 40) (\<lambda>(a2, s7).
   bindR (realloc False 16 s7 a2 16) (\<lambda>(a3, s8).
   bindR (malloc False 8 s8 8) (\<lambda>(x, s9).
   bindR (free False s9 x) (\<lambda>s10.
   bindR (free False s10 c) (\<lambda>s11.
   Inr (fromPayload x, fromPayload c, reg_next s11 (fromPayload x),
        usedPayload s11 (fromPayload x), usedPayload s11 (fromPayload c))))))))))))) =
   Inr (0x1040, 0x1070, 0x1070, 0, 0)"
  by (simp add: free_checked) (simp add: exec)


section \<open>The assertions of the free-list operations\<close>

text \<open>
  C7 says that every assertion inside \<^verbatim>\<open>addToFreeList\<close> and \<^verbatim>\<open>removeFromFreeList\<close>
  holds on every call. Both functions first assert that \<^verbatim>\<open>region->usedPayload\<close> is
  not zero and then call \<^verbatim>\<open>getFreeInfo\<close>, which asserts that it is zero, with no
  write in between. With assertions compiled in, no call of either function passes, in
  any state and for any region.
\<close>

theorem free_list_assertions_never_pass:
  "addToFreeList True s region = Inl AssertionFailed \<and>
   removeFromFreeList True s region = Inl AssertionFailed"
  by (simp add: addToFreeList_checked removeFromFreeList_checked)

section \<open>The links between neighbours\<close>

text \<open>
  C8 says that in every reachable state \<^verbatim>\<open>r->next->prev == r\<close> and
  \<^verbatim>\<open>r->prev->next == r\<close>, and that release, the absorption in \<^verbatim>\<open>realloc\<close> and the
  split keep it so. The run, with assertions compiled out: \<^verbatim>\<open>a\<close>, \<^verbatim>\<open>b\<close>, \<^verbatim>\<open>c\<close> from
  three \<^verbatim>\<open>malloc(1)\<close>, \<^verbatim>\<open>free(b)\<close>, \<^verbatim>\<open>realloc(a, 20)\<close>. The resize absorbs b and
  sets \<^verbatim>\<open>a->next\<close> to c, and nothing writes \<^verbatim>\<open>c->prev\<close>: it still points to b, the
  region that no longer exists.
\<close>

theorem absorb_leaves_stale_prev:
  "bindR (malloc False 1 heap0 1) (\<lambda>(a, s1).
   bindR (malloc False 1 s1 1) (\<lambda>(b, s2).
   bindR (malloc False 1 s2 1) (\<lambda>(c, s3).
   bindR (free False s3 b) (\<lambda>s4.
   bindR (realloc False 20 s4 a 20) (\<lambda>(a2, s5).
   Inr (fromPayload a, fromPayload b, fromPayload c, a2 = a,
        reg_next s5 (fromPayload a), reg_prev s5 (fromPayload c))))))) =
   Inr (0x1000, 0x1020, 0x1040, True, 0x1040, 0x1020)"
  by (simp add: exec)

section \<open>A failed resize\<close>

text \<open>
  C9: on the slow path of \<^verbatim>\<open>realloc\<close> (every earlier guard says no), when the
  free-list search finds nothing and heap growth fails, \<^verbatim>\<open>realloc\<close> returns null and
  the memory, the free-list table and \<^verbatim>\<open>lastRegion\<close> are what they were: the header
  and the payload of the original region are untouched. This holds for every size, with
  assertions compiled in or out, and whatever the unbound \<^verbatim>\<open>size\<close> of
  \<^verbatim>\<open>useFreeInfo\<close> is.

  For a request of 32 bytes or more with assertions compiled out, the search always
  finds nothing (its class is 32 or more, past the table), so there the failure of heap
  growth alone gives the result. With assertions compiled in, such a request does not
  reach the allocation: \<^verbatim>\<open>getFreeListIndex\<close> stops at its last assertion (see C2), and
  the search finds nothing only for requests below 32 bytes.
\<close>

theorem realloc_failure_keeps_original:
  "(reallocTakesSlowPath s ptr sz \<and> tryFromFreeList chk usz s sz = Inr (0, s) \<and>
    heapGrowthFails s sz \<longrightarrow>
      (\<exists>s'. realloc chk usz s ptr sz = Inr (0, s') \<and> mem s' = mem s \<and>
            freeLists s' = freeLists s \<and> lastRegion s' = lastRegion s)) \<and>
   (reallocTakesSlowPath s ptr sz \<and> 32 \<le> sz \<and> heapGrowthFails s sz \<longrightarrow>
      (\<exists>s'. realloc False usz s ptr sz = Inr (0, s') \<and> mem s' = mem s \<and>
            freeLists s' = freeLists s \<and> lastRegion s' = lastRegion s))"
proof -
  have general: "\<exists>s'. realloc c usz s ptr sz = Inr (0, s') \<and> mem s' = mem s \<and>
      freeLists s' = freeLists s \<and> lastRegion s' = lastRegion s"
    if slow: "reallocTakesSlowPath s ptr sz"
      and miss: "tryFromFreeList c usz s sz = Inr (0, s)"
      and fails: "heapGrowthFails s sz" for c
  proof -
    from slow have nz: "sz \<noteq> 0"
      by (simp add: reallocTakesSlowPath_def Let_def)
    from newAllocation_fails [OF fails nz, of c] obtain b
      where n: "newAllocation c s sz = Inr (0, s\<lparr>brk := b\<rparr>)" ..
    have m: "malloc c usz s sz = Inr (0, s\<lparr>brk := b\<rparr>)"
      using nz miss n by (simp add: malloc_def)
    have "realloc c usz s ptr sz = Inr (0, s\<lparr>brk := b\<rparr>)"
      using slow m by (auto simp: realloc_def reallocTakesSlowPath_def Let_def)
    then show ?thesis
      by simp
  qed
  show ?thesis
  proof (intro conjI impI)
    assume "reallocTakesSlowPath s ptr sz \<and> tryFromFreeList chk usz s sz = Inr (0, s) \<and>
      heapGrowthFails s sz"
    then show "\<exists>s'. realloc chk usz s ptr sz = Inr (0, s') \<and> mem s' = mem s \<and>
        freeLists s' = freeLists s \<and> lastRegion s' = lastRegion s"
      using general [of chk] by blast
  next
    assume a: "reallocTakesSlowPath s ptr sz \<and> 32 \<le> sz \<and> heapGrowthFails s sz"
    then have "tryFromFreeList False usz s sz = Inr (0, s)"
      by (simp add: tryFromFreeList_unchecked_large)
    with a show "\<exists>s'. realloc False usz s ptr sz = Inr (0, s') \<and> mem s' = mem s \<and>
        freeLists s' = freeLists s \<and> lastRegion s' = lastRegion s"
      using general [of False] by blast
  qed
qed

theorem realloc_failure_keeps_original_witness:
  "reallocTakesSlowPath oneRegionHeap 0x1010 20 \<and>
   tryFromFreeList True 20 oneRegionHeap 20 = Inr (0, oneRegionHeap) \<and>
   heapGrowthFails oneRegionHeap 20 \<and>
   usedPayload oneRegionHeap 0x1000 = 1 \<and>
   (\<exists>s'. realloc True 20 oneRegionHeap 0x1010 20 = Inr (0, s') \<and> mem s' = mem oneRegionHeap \<and>
         freeLists s' = freeLists oneRegionHeap \<and> lastRegion s' = lastRegion oneRegionHeap) \<and>
   reallocTakesSlowPath oneRegionHeap 0x1010 40 \<and> (32 :: u32) \<le> 40 \<and>
   heapGrowthFails oneRegionHeap 40 \<and>
   (\<exists>s'. realloc False 40 oneRegionHeap 0x1010 40 = Inr (0, s') \<and> mem s' = mem oneRegionHeap \<and>
         freeLists s' = freeLists oneRegionHeap \<and> lastRegion s' = lastRegion oneRegionHeap)"
proof -
  have slow: "reallocTakesSlowPath oneRegionHeap 0x1010 20"
    "reallocTakesSlowPath oneRegionHeap 0x1010 40"
    by (simp_all add: exec)
  have miss: "tryFromFreeList True 20 oneRegionHeap 20 = Inr (0, oneRegionHeap)"
    by (simp add: exec)
  have fails: "heapGrowthFails oneRegionHeap 20" "heapGrowthFails oneRegionHeap 40"
    by (simp_all add: exec)
  have used: "usedPayload oneRegionHeap 0x1000 = 1"
    by (simp add: exec)
  have big: "(32 :: u32) \<le> 40"
    by simp
  from realloc_failure_keeps_original [of oneRegionHeap "0x1010" 20 True 20]
    realloc_failure_keeps_original [of oneRegionHeap "0x1010" 40 False 40]
    slow miss fails used big
  show ?thesis by blast
qed

section \<open>When allocation returns null\<close>



end
